theory Spec2Isabelle
  imports Main "HOL-Library.Word" "HOL-Library.Signed_Division" "HOL-Library.Char_ord"
begin

section \<open>Structured field values: the value model of \<^verbatim>\<open>parse.go\<close>\<close>

text \<open>
  The Go package \<^verbatim>\<open>sf\<close> parses and serialises structured field values. A Go
  \<^verbatim>\<open>byte\<close> is a \<^typ>\<open>char\<close> (eight bits), a Go \<^verbatim>\<open>string\<close> and a
  \<^verbatim>\<open>[]byte\<close> are both \<^typ>\<open>char list\<close>, and \<^verbatim>\<open>int64\<close> is \<^typ>\<open>64 word\<close>
  read through \<^const>\<open>sint\<close>. Byte comparisons such as \<^verbatim>\<open>'0' <= b\<close> use the order
  on characters, which compares the byte values.
\<close>

type_synonym byte = char
type_synonym int64 = "64 word"

datatype error = ErrUnexpectedEOL | ErrUnrecognized | ErrTooManyDigits

datatype BareItem =
    Integer int64
  | Decimal int64
  | String string
  | Token string
  | ByteSeq "byte list"
  | Bool bool

record Param =
  Key :: string
  Value :: BareItem

type_synonym ParamList = "Param list"

record Item =
  Bare :: BareItem
  Params :: ParamList

record InnerList =
  Items :: "Item list"
  Params :: ParamList

text \<open>
  \<^verbatim>\<open>Member\<close> is a Go interface with two implementations, \<^verbatim>\<open>*Item\<close> and
  \<^verbatim>\<open>*InnerList\<close>; the type switch of \<^verbatim>\<open>Pair.Encode\<close> is the case distinction on
  the two constructors.
\<close>

datatype Member = MItem Item | MInnerList InnerList

record Pair =
  Key :: string
  Value :: Member

type_synonym Dict = "Pair list"
type_synonym List = "Member list"

subsection \<open>Lexical classifiers\<close>

definition isPrint :: "byte \<Rightarrow> bool" where
  "isPrint b \<longleftrightarrow> CHR '' '' \<le> b \<and> b \<le> CHR ''~''"

definition isDigit :: "byte \<Rightarrow> bool" where
  "isDigit b \<longleftrightarrow> CHR ''0'' \<le> b \<and> b \<le> CHR ''9''"

definition isUpper :: "byte \<Rightarrow> bool" where
  "isUpper b \<longleftrightarrow> CHR ''A'' \<le> b \<and> b \<le> CHR ''Z''"

definition isLower :: "byte \<Rightarrow> bool" where
  "isLower b \<longleftrightarrow> CHR ''a'' \<le> b \<and> b \<le> CHR ''z''"

definition isAlpha :: "byte \<Rightarrow> bool" where
  "isAlpha b \<longleftrightarrow> isLower b \<or> isUpper b"

definition isKeyChar :: "byte \<Rightarrow> bool" where
  "isKeyChar b \<longleftrightarrow>
     (if isLower b \<or> isDigit b then True
      else b \<in> {CHR ''_'', CHR ''-'', CHR ''.'', CHR ''*''})"

definition isTokenChar :: "byte \<Rightarrow> bool" where
  "isTokenChar b \<longleftrightarrow>
     (if isAlpha b \<or> isDigit b then True
      else b \<in> {CHR ''!'', CHR ''#'', CHR ''$'', CHR ''%'', CHR ''&'', CHR 0x27, CHR ''*'',
                CHR ''+'', CHR ''-'', CHR ''.'', CHR ''^'', CHR ''_'', CHR 0x60, CHR ''|'',
                CHR ''~'', CHR '':'', CHR ''/''})"

definition isBase64Char :: "byte \<Rightarrow> bool" where
  "isBase64Char b \<longleftrightarrow>
     (if isAlpha b \<or> isDigit b then True
      else b \<in> {CHR ''+'', CHR ''/'', CHR ''=''})"

subsection \<open>The upsert of \<^verbatim>\<open>Dict.Add\<close> and \<^verbatim>\<open>ParamList.Add\<close>\<close>

text \<open>
  \<^verbatim>\<open>for _, p := range d { if p.Key == k { p.Value = v; return d } }\<close>: the range
  variable \<^verbatim>\<open>p\<close> is a copy of the slice element (\<^verbatim>\<open>Dict\<close> is \<^verbatim>\<open>[]Pair\<close>, a
  slice of struct values), so the assignment changes the local copy \<open>p'\<close> and the
  slice \<open>d\<close> that is returned is the one that was passed in. The loop runs over
  the remaining elements \<open>ps\<close>; \<open>None\<close> is the loop running to its end.
\<close>

fun Dict_Add_range :: "Dict \<Rightarrow> Pair list \<Rightarrow> string \<Rightarrow> Member \<Rightarrow> Dict option" where
  "Dict_Add_range d [] k v = None"
| "Dict_Add_range d (p # ps) k v =
     (if Pair.Key p = k
      then (let p' = p\<lparr>Pair.Value := v\<rparr> in Some d)
      else Dict_Add_range d ps k v)"

definition Dict_Add :: "Dict \<Rightarrow> string \<Rightarrow> Member \<Rightarrow> Dict" where
  "Dict_Add d k v =
     (case Dict_Add_range d d k v of
        Some d' \<Rightarrow> d'
      | None \<Rightarrow> d @ [\<lparr>Pair.Key = k, Value = v\<rparr>])"

fun Dict_Get :: "Dict \<Rightarrow> string \<Rightarrow> Member option" where
  "Dict_Get [] k = None"
| "Dict_Get (p # ps) k = (if Pair.Key p = k then Some (Pair.Value p) else Dict_Get ps k)"

fun ParamList_Add_range :: "ParamList \<Rightarrow> Param list \<Rightarrow> string \<Rightarrow> BareItem \<Rightarrow> ParamList option" where
  "ParamList_Add_range l [] k v = None"
| "ParamList_Add_range l (p # ps) k v =
     (if Param.Key p = k
      then (let p' = p\<lparr>Param.Value := v\<rparr> in Some l)
      else ParamList_Add_range l ps k v)"

definition ParamList_Add :: "ParamList \<Rightarrow> string \<Rightarrow> BareItem \<Rightarrow> ParamList" where
  "ParamList_Add l k v =
     (case ParamList_Add_range l l k v of
        Some l' \<Rightarrow> l'
      | None \<Rightarrow> l @ [\<lparr>Param.Key = k, Value = v\<rparr>])"

fun ParamList_Get :: "ParamList \<Rightarrow> string \<Rightarrow> BareItem option" where
  "ParamList_Get [] k = None"
| "ParamList_Get (p # ps) k = (if Param.Key p = k then Some (Param.Value p) else ParamList_Get ps k)"

subsection \<open>Go library functions used by the encoder\<close>

text \<open>
  \<^verbatim>\<open>strconv.FormatInt(i, 10)\<close> and the verb \<^verbatim>\<open>%d\<close> of \<^verbatim>\<open>fmt.Sprintf\<close> on an
  \<^verbatim>\<open>int64\<close>: an optional minus sign and the decimal digits of the magnitude.
\<close>

definition digitChar :: "nat \<Rightarrow> char" where
  "digitChar n = char_of (of_char (CHR ''0'') + n)"

fun natDigits :: "nat \<Rightarrow> string" where
  "natDigits n = (if n < 10 then [digitChar n] else natDigits (n div 10) @ [digitChar (n mod 10)])"

declare natDigits.simps [simp del]

definition FormatInt :: "int64 \<Rightarrow> string" where
  "FormatInt i =
     (if sint i < 0 then CHR ''-'' # natDigits (nat (- sint i)) else natDigits (nat (sint i)))"

text \<open>Go's \<^verbatim>\<open>/\<close> and \<^verbatim>\<open>%\<close> on \<^verbatim>\<open>int64\<close> truncate towards zero.\<close>

definition div64 :: "int64 \<Rightarrow> int64 \<Rightarrow> int64" where
  "div64 a b = word_of_int (sint a sdiv sint b)"

definition rem64 :: "int64 \<Rightarrow> int64 \<Rightarrow> int64" where
  "rem64 a b = word_of_int (sint a smod sint b)"

text \<open>\<^verbatim>\<open>strings.Join\<close>.\<close>

fun Join :: "string list \<Rightarrow> string \<Rightarrow> string" where
  "Join [] sep = []"
| "Join [x] sep = x"
| "Join (x # y # ys) sep = x @ sep @ Join (y # ys) sep"

text \<open>
  \<^verbatim>\<open>utf8.DecodeRuneInString\<close>: the rune and its width in bytes; an invalid or
  short encoding is \<^verbatim>\<open>RuneError\<close> (\<open>0xFFFD\<close>) of width 1.
\<close>

definition RuneError :: nat where
  "RuneError = 0xFFFD"

definition cont :: "nat \<Rightarrow> nat \<Rightarrow> byte \<Rightarrow> bool" where
  "cont lo hi c \<longleftrightarrow> lo \<le> of_char c \<and> of_char c \<le> hi"

fun DecodeRuneInString :: "string \<Rightarrow> nat \<times> nat" where
  "DecodeRuneInString [] = (RuneError, 0)"
| "DecodeRuneInString (c0 # rest) =
     (let b0 = of_char c0 :: nat in
      if b0 < 0x80 then (b0, 1)
      else if 0xC2 \<le> b0 \<and> b0 \<le> 0xDF then
        (case rest of
           c1 # _ \<Rightarrow>
             if cont 0x80 0xBF c1 then ((b0 mod 32) * 64 + of_char c1 mod 64, 2)
             else (RuneError, 1)
         | _ \<Rightarrow> (RuneError, 1))
      else if 0xE0 \<le> b0 \<and> b0 \<le> 0xEF then
        (case rest of
           c1 # c2 # _ \<Rightarrow>
             if cont (if b0 = 0xE0 then 0xA0 else 0x80) (if b0 = 0xED then 0x9F else 0xBF) c1
                \<and> cont 0x80 0xBF c2
             then ((b0 mod 16) * 4096 + (of_char c1 mod 64) * 64 + of_char c2 mod 64, 3)
             else (RuneError, 1)
         | _ \<Rightarrow> (RuneError, 1))
      else if 0xF0 \<le> b0 \<and> b0 \<le> 0xF4 then
        (case rest of
           c1 # c2 # c3 # _ \<Rightarrow>
             if cont (if b0 = 0xF0 then 0x90 else 0x80) (if b0 = 0xF4 then 0x8F else 0xBF) c1
                \<and> cont 0x80 0xBF c2 \<and> cont 0x80 0xBF c3
             then ((b0 mod 8) * 262144 + (of_char c1 mod 64) * 4096
                   + (of_char c2 mod 64) * 64 + of_char c3 mod 64, 4)
             else (RuneError, 1)
         | _ \<Rightarrow> (RuneError, 1))
      else (RuneError, 1))"

text \<open>
  \<^verbatim>\<open>strconv.QuoteToASCII\<close>, that is \<^verbatim>\<open>appendQuotedWith\<close> with the quote
  \<^verbatim>\<open>'"'\<close> and \<^verbatim>\<open>ASCIIonly\<close>: quote and backslash are backslashed, printable
  ASCII is copied, everything else is escaped.
\<close>

definition lowerhex :: "nat \<Rightarrow> char" where
  "lowerhex n = ''0123456789abcdef'' ! (n mod 16)"

fun hexDigits :: "nat \<Rightarrow> nat \<Rightarrow> string" where
  "hexDigits 0 n = []"
| "hexDigits (Suc k) n = hexDigits k (n div 16) @ [lowerhex n]"

definition ValidRune :: "nat \<Rightarrow> bool" where
  "ValidRune r \<longleftrightarrow> r < 0xD800 \<or> (0xE000 \<le> r \<and> r \<le> 0x10FFFF)"

definition appendEscapedRune :: "string \<Rightarrow> nat \<Rightarrow> string" where
  "appendEscapedRune buf r =
     (if r = of_char (CHR 0x22) \<or> r = of_char (CHR 0x5C) then buf @ [CHR 0x5C, char_of r]
      else if r < 0x80 \<and> 0x20 \<le> r \<and> r < 0x7F then buf @ [char_of r]
      else if r = 0x07 then buf @ [CHR 0x5C, CHR ''a'']
      else if r = 0x08 then buf @ [CHR 0x5C, CHR ''b'']
      else if r = 0x0C then buf @ [CHR 0x5C, CHR ''f'']
      else if r = 0x0A then buf @ [CHR 0x5C, CHR ''n'']
      else if r = 0x0D then buf @ [CHR 0x5C, CHR ''r'']
      else if r = 0x09 then buf @ [CHR 0x5C, CHR ''t'']
      else if r = 0x0B then buf @ [CHR 0x5C, CHR ''v'']
      else if r < 0x20 \<or> r = 0x7F then buf @ [CHR 0x5C, CHR ''x''] @ hexDigits 2 r
      else if \<not> ValidRune r then buf @ [CHR 0x5C, CHR ''u''] @ hexDigits 4 RuneError
      else if r < 0x10000 then buf @ [CHR 0x5C, CHR ''u''] @ hexDigits 4 r
      else buf @ [CHR 0x5C, CHR ''U''] @ hexDigits 8 r)"

definition nextRune :: "string \<Rightarrow> nat \<times> nat" where
  "nextRune s =
     (if (of_char (hd s) :: nat) \<ge> 0x80 then DecodeRuneInString s else (of_char (hd s), 1))"

lemma nextRune_width: "s \<noteq> [] \<Longrightarrow> 0 < snd (nextRune s)"
  by (cases s) (auto simp: nextRune_def Let_def split: list.splits)

function appendQuoted_loop :: "string \<Rightarrow> string \<Rightarrow> string" where
  "appendQuoted_loop buf s =
     (if s = [] then buf
      else if snd (nextRune s) = 1 \<and> fst (nextRune s) = RuneError
        then appendQuoted_loop (buf @ [CHR 0x5C, CHR ''x''] @ hexDigits 2 (of_char (hd s)))
               (drop (snd (nextRune s)) s)
        else appendQuoted_loop (appendEscapedRune buf (fst (nextRune s)))
               (drop (snd (nextRune s)) s))"
  by pat_completeness auto
termination
  by (relation "measure (\<lambda>(buf, s). length s)") (use nextRune_width in \<open>auto simp: Suc_le_eq\<close>)

declare appendQuoted_loop.simps [simp del]

definition QuoteToASCII :: "string \<Rightarrow> string" where
  "QuoteToASCII s = appendQuoted_loop [CHR 0x22] s @ [CHR 0x22]"

text \<open>
  \<^verbatim>\<open>base64.StdEncoding.EncodeToString\<close>: three bytes become four characters of the
  standard alphabet; a remainder of one or two bytes is padded with \<^verbatim>\<open>=\<close>.
\<close>

definition encodeStd :: string where
  "encodeStd = ''ABCDEFGHIJKLMNOPQRSTUVWXYZabcdefghijklmnopqrstuvwxyz0123456789+/''"

definition enc64 :: "nat \<Rightarrow> char" where
  "enc64 v = encodeStd ! (v mod 64)"

fun EncodeToString :: "byte list \<Rightarrow> string" where
  "EncodeToString (a # b # c # rest) =
     (let v = of_char a * 65536 + of_char b * 256 + of_char c :: nat
      in [enc64 (v div 262144), enc64 (v div 4096), enc64 (v div 64), enc64 v]
         @ EncodeToString rest)"
| "EncodeToString [a, b] =
     (let v = of_char a * 65536 + of_char b * 256 :: nat
      in [enc64 (v div 262144), enc64 (v div 4096), enc64 (v div 64), CHR ''=''])"
| "EncodeToString [a] =
     (let v = of_char a * 65536 :: nat
      in [enc64 (v div 262144), enc64 (v div 4096), CHR ''='', CHR ''=''])"
| "EncodeToString [] = []"

subsection \<open>The encoder\<close>

definition Integer_Encode :: "int64 \<Rightarrow> string" where
  "Integer_Encode i = FormatInt i"

text \<open>
  \<^verbatim>\<open>remTrailZeros\<close> reads \<^verbatim>\<open>d[len(d)-1]\<close> and then \<^verbatim>\<open>d[len(d)-2]\<close>; Go
  panics when the index is negative, which is \<open>None\<close> here.
\<close>

definition remTrailZeros :: "string \<Rightarrow> string option" where
  "remTrailZeros d =
     (if length d < 1 then None
      else if d ! (length d - 1) = CHR ''0'' then
        (if length d < 2 then None
         else if d ! (length d - 2) = CHR ''0'' then Some (take (length d - 2) d)
         else Some (take (length d - 1) d))
      else Some d)"

text \<open>
  \<^verbatim>\<open>Decimal.Encode\<close>. The negation \<^verbatim>\<open>d = -d\<close> is the negation of \<^typ>\<open>64 word\<close>, which
  wraps at the least \<^verbatim>\<open>int64\<close>. \<open>None\<close> is the panic of \<^const>\<open>remTrailZeros\<close>.
\<close>

definition Decimal_Encode :: "int64 \<Rightarrow> string option" where
  "Decimal_Encode d0 =
     (let sign = (if sint d0 < 0 then ''-'' else []);
          d = (if sint d0 < 0 then - d0 else d0);
          intPart = div64 d 1000;
          fracPart = rem64 d 1000
      in if fracPart = 0 then Some (sign @ FormatInt intPart @ ''.0'')
         else if sint fracPart < 10 then
           remTrailZeros (sign @ FormatInt intPart @ ''.00'' @ FormatInt fracPart)
         else if sint fracPart < 100 then
           remTrailZeros (sign @ FormatInt intPart @ ''.0'' @ FormatInt fracPart)
         else remTrailZeros (sign @ FormatInt intPart @ ''.'' @ FormatInt fracPart))"

definition String_Encode :: "string \<Rightarrow> string" where
  "String_Encode s = QuoteToASCII s"

definition Token_Encode :: "string \<Rightarrow> string" where
  "Token_Encode s = s"

definition ByteSeq_Encode :: "byte list \<Rightarrow> string" where
  "ByteSeq_Encode bs = '':'' @ EncodeToString bs @ '':''"

definition Bool_Encode :: "bool \<Rightarrow> string" where
  "Bool_Encode b = (if b then ''?1'' else ''?0'')"

text \<open>
  The method \<^verbatim>\<open>Encode\<close> of the interface \<^verbatim>\<open>BareItem\<close>. \<^const>\<open>Decimal_Encode\<close> never
  panics (lemma \<open>Decimal_Encode_total\<close> below), so its \<open>None\<close> branch is never taken.
\<close>

fun BareItem_Encode :: "BareItem \<Rightarrow> string" where
  "BareItem_Encode (Integer i) = Integer_Encode i"
| "BareItem_Encode (Decimal d) = (case Decimal_Encode d of Some s \<Rightarrow> s | None \<Rightarrow> [])"
| "BareItem_Encode (String s) = String_Encode s"
| "BareItem_Encode (Token s) = Token_Encode s"
| "BareItem_Encode (ByteSeq bs) = ByteSeq_Encode bs"
| "BareItem_Encode (Bool b) = Bool_Encode b"

definition Param_Encode :: "Param \<Rightarrow> string" where
  "Param_Encode p =
     (case Param.Value p of
        Bool True \<Rightarrow> Param.Key p
      | _ \<Rightarrow> Param.Key p @ ''='' @ BareItem_Encode (Param.Value p))"

definition ParamList_Encode :: "ParamList \<Rightarrow> string" where
  "ParamList_Encode l =
     (if length l = 0 then [] else '';'' @ Join (map Param_Encode l) '';'')"

definition Item_Encode :: "Item \<Rightarrow> string" where
  "Item_Encode i = BareItem_Encode (Bare i) @ ParamList_Encode (Item.Params i)"

definition InnerList_Encode :: "InnerList \<Rightarrow> string" where
  "InnerList_Encode i =
     (if length (Items i) = 0 then ''()'' @ ParamList_Encode (InnerList.Params i)
      else ''('' @ Join (map Item_Encode (Items i)) '' '' @ '')''
           @ ParamList_Encode (InnerList.Params i))"

fun Member_Encode :: "Member \<Rightarrow> string" where
  "Member_Encode (MItem i) = Item_Encode i"
| "Member_Encode (MInnerList i) = InnerList_Encode i"

definition Pair_Encode :: "Pair \<Rightarrow> string" where
  "Pair_Encode p =
     (case Pair.Value p of
        MItem it \<Rightarrow>
          (case Bare it of
             Bool True \<Rightarrow> Pair.Key p @ ParamList_Encode (Item.Params it)
           | _ \<Rightarrow> Pair.Key p @ ''='' @ Member_Encode (Pair.Value p))
      | _ \<Rightarrow> Pair.Key p @ ''='' @ Member_Encode (Pair.Value p))"

definition List_Encode :: "List \<Rightarrow> string" where
  "List_Encode l = (if length l = 0 then [] else Join (map Member_Encode l) '', '')"

definition Dict_Encode :: "Dict \<Rightarrow> string" where
  "Dict_Encode d = (if length d = 0 then [] else Join (map Pair_Encode d) '', '')"

subsection \<open>Go library functions used by the parser\<close>

text \<open>
  \<^verbatim>\<open>strconv.ParseInt(s, 10, 64)\<close>: an optional sign and decimal digits. A syntax
  error gives 0, a value out of range gives the nearest bound; both come with an
  error, which \<^verbatim>\<open>parseNumber\<close> drops.
\<close>

datatype numError = ErrSyntax | ErrRange

fun digitsValue :: "nat \<Rightarrow> string \<Rightarrow> nat" where
  "digitsValue acc [] = acc"
| "digitsValue acc (c # cs) = digitsValue (acc * 10 + (of_char c - of_char (CHR ''0''))) cs"

definition ParseUint :: "string \<Rightarrow> nat \<times> numError option" where
  "ParseUint s =
     (if s = [] then (0, Some ErrSyntax)
      else if \<not> list_all isDigit s then (0, Some ErrSyntax)
      else if digitsValue 0 s \<ge> 2 ^ 64 then (2 ^ 64 - 1, Some ErrRange)
      else (digitsValue 0 s, None))"

definition ParseInt :: "string \<Rightarrow> int64 \<times> numError option" where
  "ParseInt s0 =
     (if s0 = [] then (0, Some ErrSyntax)
      else let neg = (hd s0 = CHR ''-'');
               s = (if hd s0 = CHR ''+'' \<or> hd s0 = CHR ''-'' then tl s0 else s0);
               (un, err) = ParseUint s;
               cutoff = (2 ^ 63 :: nat)
           in if err = Some ErrSyntax then (0, err)
              else if \<not> neg \<and> un \<ge> cutoff then (word_of_nat (cutoff - 1), Some ErrRange)
              else if neg \<and> un > cutoff then (- word_of_nat cutoff, Some ErrRange)
              else (if neg then - word_of_nat un else word_of_nat un, None))"

text \<open>
  \<^verbatim>\<open>strconv.Unquote\<close> on a double-quoted string. The model covers what
  \<^verbatim>\<open>parseString\<close> can pass: ASCII bytes between two double quotes, where a
  backslash is followed by a double quote or a backslash and each such pair stands
  for its second byte. Every other input (another quote character, another escape
  sequence, a byte outside ASCII, a line feed, text after the closing quote) is
  answered with \<^const>\<open>ErrSyntax\<close> and the empty string here.
\<close>

fun unquote_chars :: "string \<Rightarrow> string \<Rightarrow> (string \<times> string) option" where
  "unquote_chars buf [] = None"
| "unquote_chars buf (c # rest) =
     (if c = CHR 0x22 then Some (buf, rest)
      else if c = CHR 0x0A \<or> (of_char c :: nat) \<ge> 0x80 then None
      else if c = CHR 0x5C then
        (case rest of
           [] \<Rightarrow> None
         | e # rest' \<Rightarrow>
             if e = CHR 0x22 \<or> e = CHR 0x5C then unquote_chars (buf @ [e]) rest' else None)
      else unquote_chars (buf @ [c]) rest)"

definition Unquote :: "string \<Rightarrow> string \<times> numError option" where
  "Unquote s =
     (if length s < 2 \<or> hd s \<noteq> CHR 0x22 then ([], Some ErrSyntax)
      else case unquote_chars [] (tl s) of
             None \<Rightarrow> ([], Some ErrSyntax)
           | Some (out, rem) \<Rightarrow> if rem \<noteq> [] then ([], Some ErrSyntax) else (out, None))"

text \<open>
  \<^verbatim>\<open>base64.StdEncoding.DecodeString\<close>. \<^verbatim>\<open>decodeQuantum\<close> reads up to four
  characters of the alphabet into \<open>dbuf\<close>, skipping \<^verbatim>\<open>\r\<close> and \<^verbatim>\<open>\n\<close>, and
  handles the padding; it returns the rest of the source, the bytes of this quantum
  and whether it met no error. \<^verbatim>\<open>DecodeString\<close> returns the bytes decoded before
  the error together with the error, and \<^verbatim>\<open>parseByteSeq\<close> keeps the bytes.
\<close>

fun indexByte :: "string \<Rightarrow> char \<Rightarrow> nat \<Rightarrow> nat option" where
  "indexByte [] c i = None"
| "indexByte (x # xs) c i = (if x = c then Some i else indexByte xs c (i + 1))"

definition decodeMap :: "char \<Rightarrow> nat option" where
  "decodeMap c = indexByte encodeStd c 0"

fun skipNewlines :: "string \<Rightarrow> string" where
  "skipNewlines [] = []"
| "skipNewlines (c # src) =
     (if c = CHR 0x0A \<or> c = CHR 0x0D then skipNewlines src else c # src)"

definition quantumBytes :: "nat list \<Rightarrow> byte list" where
  "quantumBytes dbuf =
     (let d = dbuf @ replicate (4 - length dbuf) 0;
          val = (d ! 0) * 262144 + (d ! 1) * 4096 + (d ! 2) * 64 + (d ! 3)
      in take (length dbuf - 1) [char_of (val div 65536), char_of (val div 256), char_of val])"

fun decodeQuantum :: "nat list \<Rightarrow> string \<Rightarrow> string \<times> byte list \<times> bool" where
  "decodeQuantum dbuf [] = ([], [], dbuf = [])"
| "decodeQuantum dbuf (c # src) =
     (case decodeMap c of
        Some out \<Rightarrow>
          if length dbuf = 3 then (src, quantumBytes (dbuf @ [out]), True)
          else decodeQuantum (dbuf @ [out]) src
      | None \<Rightarrow>
          if c = CHR 0x0A \<or> c = CHR 0x0D then decodeQuantum dbuf src
          else if c \<noteq> CHR ''='' then (src, [], False)
          else if length dbuf < 2 then (src, [], False)
          else if length dbuf = 2 then
            (case skipNewlines src of
               [] \<Rightarrow> ([], [], False)
             | c' # src' \<Rightarrow>
                 if c' \<noteq> CHR ''='' then (c' # src', [], False)
                 else (skipNewlines src', quantumBytes dbuf, skipNewlines src' = []))
          else (skipNewlines src, quantumBytes dbuf, skipNewlines src = []))"

lemma length_skipNewlines: "length (skipNewlines src) \<le> length src"
  by (induction src) auto

lemma length_decodeQuantum: "length (fst (decodeQuantum dbuf src)) \<le> length src - 1"
proof (induction dbuf src rule: decodeQuantum.induct)
  case (1 dbuf)
  then show ?case by simp
next
  case (2 dbuf c src)
  have a: "length (skipNewlines src) \<le> length src" by (rule length_skipNewlines)
  have b: "length (fst (decodeQuantum d src)) \<le> length src" 
    if "length (fst (decodeQuantum d src)) \<le> length src - 1" for d
    using that by arith
  have c: "length (fst (case skipNewlines src of [] \<Rightarrow> ([], [], False)
             | c' # src' \<Rightarrow>
                 if c' \<noteq> CHR ''='' then (c' # src', [], False)
                 else (skipNewlines src', quantumBytes dbuf, skipNewlines src' = []))) \<le> length src"
  proof (cases "skipNewlines src")
    case Nil
    then show ?thesis by simp
  next
    case (Cons c' src')
    have "length (skipNewlines src') \<le> length src'" by (rule length_skipNewlines)
    with a Cons show ?thesis by auto
  qed
  show ?case
  proof (cases "decodeMap c")
    case None
    have ih: "length (fst (decodeQuantum dbuf src)) \<le> length src"
      if "c = CHR 0x0A \<or> c = CHR 0x0D"
      using 2(1) [OF None that] by arith
    from None a c ih show ?thesis
      by (simp del: skipNewlines.simps)
  next
    case (Some out)
    have ih: "length (fst (decodeQuantum (dbuf @ [out]) src)) \<le> length src"
      if "length dbuf \<noteq> 3"
      using 2(2) [OF Some that] by arith
    from Some ih show ?thesis
      by simp
  qed
qed

lemma decodeQuantum_shorter:
  assumes "src \<noteq> []" and "(src', r) = decodeQuantum dbuf src"
  shows "length src' < length src"
proof -
  have "length (fst (decodeQuantum dbuf src)) \<le> length src - 1"
    by (rule length_decodeQuantum)
  moreover have "src' = fst (decodeQuantum dbuf src)"
    using assms(2) by (metis fst_conv)
  moreover have "0 < length src"
    using assms(1) by simp
  ultimately show ?thesis
    by arith
qed

function Decode_loop :: "byte list \<Rightarrow> string \<Rightarrow> byte list \<times> bool" where
  "Decode_loop dst src =
     (if src = [] then (dst, True)
      else case decodeQuantum [] src of
             (src', bs, ok) \<Rightarrow> if \<not> ok then (dst @ bs, False) else Decode_loop (dst @ bs) src')"
  by pat_completeness auto
termination
  apply (relation "measure (\<lambda>(dst, src). length src)")
   apply simp
  apply simp
  apply (erule (1) decodeQuantum_shorter)
  done

declare Decode_loop.simps [simp del]

definition DecodeString :: "string \<Rightarrow> byte list \<times> bool" where
  "DecodeString s = Decode_loop [] s"

subsection \<open>The parser: cursor, keys and bare items\<close>

text \<open>
  Every parser of \<^verbatim>\<open>parse.go\<close> takes the input and a position and returns a
  value, the new position and an error. A Go result \<^verbatim>\<open>(v, pos, nil)\<close> is
  \<open>Inr (v, pos)\<close> and a result with an error \<^verbatim>\<open>err\<close> is \<open>Inl err\<close>: the
  position that Go returns next to an error is never read by a caller. A loop is a
  recursive function on the position and the variables the loop changes; a
  \<^verbatim>\<open>strings.Builder\<close> is the string built so far.
\<close>

function skipSpaces :: "byte list \<Rightarrow> nat \<Rightarrow> nat" where
  "skipSpaces input pos =
     (if pos < length input \<and> input ! pos = CHR '' '' then skipSpaces input (pos + 1) else pos)"
  by pat_completeness auto
termination
  by (relation "measure (\<lambda>(input, pos). length input - pos)") auto

declare skipSpaces.simps [simp del]

function parseKey_loop :: "byte list \<Rightarrow> nat \<Rightarrow> string \<Rightarrow> string \<times> nat" where
  "parseKey_loop input pos sb =
     (if pos < length input \<and> isKeyChar (input ! pos)
      then parseKey_loop input (pos + 1) (sb @ [input ! pos])
      else (sb, pos))"
  by pat_completeness auto
termination
  by (relation "measure (\<lambda>(input, pos, sb). length input - pos)") auto

declare parseKey_loop.simps [simp del]

definition parseKey :: "byte list \<Rightarrow> nat \<Rightarrow> error + (string \<times> nat)" where
  "parseKey input pos0 =
     (let pos = skipSpaces input pos0 in
      if pos \<ge> length input then Inl ErrUnexpectedEOL
      else if input ! pos \<noteq> CHR ''*'' \<and> \<not> isLower (input ! pos) then Inl ErrUnrecognized
      else Inr (parseKey_loop input pos []))"

text \<open>
  The bare-item parsers read \<^verbatim>\<open>input[pos]\<close> first; \<^verbatim>\<open>parseBareItem\<close>, their only
  caller, has checked \<^verbatim>\<open>pos < len(input)\<close> before.
\<close>

function parseNumber_loop ::
  "byte list \<Rightarrow> nat \<Rightarrow> string \<Rightarrow> int \<Rightarrow> error + (string \<times> int \<times> nat)" where
  "parseNumber_loop input pos sb decimalPlaces =
     (if pos < length input then
        (if isDigit (input ! pos) then
           (if length sb = 15 then Inl ErrTooManyDigits
            else if decimalPlaces \<ge> 0 then
              (if decimalPlaces = 3 then Inl ErrTooManyDigits
               else parseNumber_loop input (pos + 1) (sb @ [input ! pos]) (decimalPlaces + 1))
            else parseNumber_loop input (pos + 1) (sb @ [input ! pos]) decimalPlaces)
         else if input ! pos = CHR ''.'' then
           (if decimalPlaces \<noteq> - 1 then Inr (sb, decimalPlaces, pos)
            else parseNumber_loop input (pos + 1) sb 0)
         else Inr (sb, decimalPlaces, pos))
      else Inr (sb, decimalPlaces, pos))"
  by pat_completeness auto
termination
  by (relation "measure (\<lambda>(input, pos, sb, dp). length input - pos)") auto

declare parseNumber_loop.simps [simp del]

definition parseNumber :: "byte list \<Rightarrow> nat \<Rightarrow> error + (BareItem \<times> nat)" where
  "parseNumber input pos0 =
     (if input ! pos0 \<noteq> CHR ''-'' \<and> \<not> isDigit (input ! pos0) then Inl ErrUnrecognized
      else let sign = (if input ! pos0 = CHR ''-'' then - 1 else 1) :: int64;
               pos = (if input ! pos0 = CHR ''-'' then pos0 + 1 else pos0)
           in if pos = length input then Inl ErrUnexpectedEOL
              else if \<not> isDigit (input ! pos) then Inl ErrUnrecognized
              else case parseNumber_loop input pos [] (- 1) of
                     Inl err \<Rightarrow> Inl err
                   | Inr (sb, decimalPlaces, pos') \<Rightarrow>
                       let n = fst (ParseInt sb) in
                       if decimalPlaces = - 1 then Inr (Integer (sign * n), pos')
                       else if decimalPlaces = 1 then Inr (Decimal (sign * n * 100), pos')
                       else if decimalPlaces = 2 then Inr (Decimal (sign * n * 10), pos')
                       else if decimalPlaces = 3 then Inr (Decimal (sign * n), pos')
                       else Inl ErrUnrecognized)"

text \<open>
  In the loop of \<^verbatim>\<open>parseString\<close> a backslash is written and skipped first, with
  its own two checks; the byte then under the cursor goes through the common
  \<^verbatim>\<open>isPrint\<close> check and is written.
\<close>

definition parseString_escape :: "byte list \<Rightarrow> nat \<Rightarrow> string \<Rightarrow> error + (string \<times> nat)" where
  "parseString_escape input pos sb =
     (if input ! pos = CHR 0x5C then
        (if pos + 1 = length input then Inl ErrUnexpectedEOL
         else if input ! (pos + 1) \<noteq> CHR 0x22 \<and> input ! (pos + 1) \<noteq> CHR 0x5C
           then Inl ErrUnrecognized
         else Inr (sb @ [input ! pos], pos + 1))
      else Inr (sb, pos))"

lemma parseString_escape_pos:
  "parseString_escape input pos sb = Inr (sb', pos') \<Longrightarrow> pos \<le> pos'"
  by (auto simp: parseString_escape_def split: if_splits)

function parseString_loop :: "byte list \<Rightarrow> nat \<Rightarrow> string \<Rightarrow> error + (string \<times> nat)" where
  "parseString_loop input pos sb =
     (if pos < length input \<and> input ! pos \<noteq> CHR 0x22 then
        (case parseString_escape input pos sb of
           Inl err \<Rightarrow> Inl err
         | Inr (sb1, pos1) \<Rightarrow>
             if \<not> isPrint (input ! pos1) then Inl ErrUnrecognized
             else parseString_loop input (pos1 + 1) (sb1 @ [input ! pos1]))
      else Inr (sb, pos))"
  by pat_completeness auto
termination
  apply (relation "measure (\<lambda>(input, pos, sb). length input - pos)")
   apply simp
  apply (auto dest!: parseString_escape_pos)
  done

declare parseString_loop.simps [simp del]

definition parseString :: "byte list \<Rightarrow> nat \<Rightarrow> error + (BareItem \<times> nat)" where
  "parseString input pos =
     (if input ! pos \<noteq> CHR 0x22 then Inl ErrUnrecognized
      else case parseString_loop input (pos + 1) [input ! pos] of
             Inl err \<Rightarrow> Inl err
           | Inr (sb, pos') \<Rightarrow>
               if pos' = length input then Inl ErrUnexpectedEOL
               else Inr (String (fst (Unquote (sb @ [input ! pos']))), pos' + 1))"

function parseToken_loop :: "byte list \<Rightarrow> nat \<Rightarrow> string \<Rightarrow> string \<times> nat" where
  "parseToken_loop input pos sb =
     (if pos < length input \<and> isTokenChar (input ! pos)
      then parseToken_loop input (pos + 1) (sb @ [input ! pos])
      else (sb, pos))"
  by pat_completeness auto
termination
  by (relation "measure (\<lambda>(input, pos, sb). length input - pos)") auto

declare parseToken_loop.simps [simp del]

definition parseToken :: "byte list \<Rightarrow> nat \<Rightarrow> error + (BareItem \<times> nat)" where
  "parseToken input pos =
     (if input ! pos \<noteq> CHR ''*'' \<and> \<not> isAlpha (input ! pos) then Inl ErrUnrecognized
      else case parseToken_loop input pos [] of (sb, pos') \<Rightarrow> Inr (Token sb, pos'))"

function parseByteSeq_loop :: "byte list \<Rightarrow> nat \<Rightarrow> string \<Rightarrow> error + (string \<times> nat)" where
  "parseByteSeq_loop input pos sb =
     (if pos < length input \<and> input ! pos \<noteq> CHR '':'' then
        (if \<not> isBase64Char (input ! pos) then Inl ErrUnrecognized
         else parseByteSeq_loop input (pos + 1) (sb @ [input ! pos]))
      else Inr (sb, pos))"
  by pat_completeness auto
termination
  by (relation "measure (\<lambda>(input, pos, sb). length input - pos)") auto

declare parseByteSeq_loop.simps [simp del]

definition parseByteSeq :: "byte list \<Rightarrow> nat \<Rightarrow> error + (BareItem \<times> nat)" where
  "parseByteSeq input pos =
     (if input ! pos \<noteq> CHR '':'' then Inl ErrUnrecognized
      else case parseByteSeq_loop input (pos + 1) [] of
             Inl err \<Rightarrow> Inl err
           | Inr (sb, pos') \<Rightarrow>
               if pos' = length input then Inl ErrUnexpectedEOL
               else Inr (ByteSeq (fst (DecodeString sb)), pos' + 1))"

definition parseBool :: "byte list \<Rightarrow> nat \<Rightarrow> error + (BareItem \<times> nat)" where
  "parseBool input pos0 =
     (if input ! pos0 \<noteq> CHR ''?'' then Inl ErrUnrecognized
      else let pos = pos0 + 1 in
           if pos = length input then Inl ErrUnexpectedEOL
           else if input ! pos = CHR ''0'' then Inr (Bool False, pos + 1)
           else if input ! pos = CHR ''1'' then Inr (Bool True, pos + 1)
           else Inl ErrUnrecognized)"

text \<open>
  \<^verbatim>\<open>bareItemParsers\<close> is the table of conditions and parsers below, tried in
  this order.
\<close>

definition parseBareItem :: "byte list \<Rightarrow> nat \<Rightarrow> error + (BareItem \<times> nat)" where
  "parseBareItem input pos0 =
     (let pos = skipSpaces input pos0 in
      if pos \<ge> length input then Inl ErrUnexpectedEOL
      else if input ! pos = CHR ''-'' \<or> isDigit (input ! pos) then parseNumber input pos
      else if input ! pos = CHR 0x22 then parseString input pos
      else if input ! pos = CHR ''*'' \<or> isAlpha (input ! pos) then parseToken input pos
      else if input ! pos = CHR '':'' then parseByteSeq input pos
      else if input ! pos = CHR ''?'' then parseBool input pos
      else Inl ErrUnrecognized)"

subsection \<open>The cursor never moves backwards\<close>

text \<open>
  The loops of the structural parsers call other parsers and go on from the
  position they return. They terminate because a parser that succeeds returns a
  position that is not before the one it was given, and a bare item takes at
  least one byte.
\<close>

lemma skipSpaces_ge: "pos \<le> skipSpaces input pos"
proof (induction input pos rule: skipSpaces.induct)
  case (1 input pos)
  then show ?case
    by (subst skipSpaces.simps) auto
qed

lemma parseKey_loop_ge: "pos \<le> snd (parseKey_loop input pos sb)"
proof (induction input pos sb rule: parseKey_loop.induct)
  case (1 input pos sb)
  then show ?case
    by (subst parseKey_loop.simps) auto
qed

lemma parseKey_ge: "parseKey input pos = Inr (k, pos') \<Longrightarrow> pos \<le> pos'"
  using skipSpaces_ge [of pos input] parseKey_loop_ge [of "skipSpaces input pos" input "[]"]
  by (auto simp: parseKey_def Let_def split: if_splits)

lemma parseNumber_loop_ge:
  "parseNumber_loop input pos sb dp = Inr (sb', dp', pos') \<Longrightarrow> pos \<le> pos'"
proof (induction input pos sb dp rule: parseNumber_loop.induct)
  case (1 input pos sb dp)
  from "1.prems" have "parseNumber_loop input pos sb dp = Inr (sb', dp', pos')" .
  then show ?case
    using "1.IH" by (subst (asm) parseNumber_loop.simps) (auto split: if_splits)
qed

lemma parseNumber_gt:
  assumes "parseNumber input pos = Inr (v, pos')" and "pos < length input"
  shows "pos < pos'"
proof -
  define p where "p = (if input ! pos = CHR ''-'' then pos + 1 else pos)"
  from assms obtain sb dp where d: "isDigit (input ! p)" "p < length input"
    and l: "parseNumber_loop input p [] (- 1) = Inr (sb, dp, pos')"
    by (auto simp: parseNumber_def Let_def p_def split: if_splits sum.splits)
  from l d have "parseNumber_loop input (p + 1) [input ! p] (- 1) = Inr (sb, dp, pos')"
    by (subst (asm) parseNumber_loop.simps) simp
  then have "p + 1 \<le> pos'"
    by (rule parseNumber_loop_ge)
  then show ?thesis
    by (simp add: p_def split: if_splits)
qed

lemma parseString_loop_ge:
  "parseString_loop input pos sb = Inr (sb', pos') \<Longrightarrow> pos \<le> pos'"
proof (induction input pos sb rule: parseString_loop.induct)
  case (1 input pos sb)
  show ?case
  proof (cases "pos < length input \<and> input ! pos \<noteq> CHR 0x22")
    case False
    with "1.prems" show ?thesis
      by (subst (asm) parseString_loop.simps) simp
  next
    case True
    from "1.prems" True obtain sb1 pos1
      where e: "parseString_escape input pos sb = Inr (sb1, pos1)"
        and p: "isPrint (input ! pos1)"
        and l: "parseString_loop input (pos1 + 1) (sb1 @ [input ! pos1]) = Inr (sb', pos')"
      by (subst (asm) parseString_loop.simps) (auto split: sum.splits if_splits)
    from p l have "pos1 + 1 \<le> pos'"
      by (intro "1.IH" [OF True e refl]) simp_all
    with parseString_escape_pos [OF e] show ?thesis
      by simp
  qed
qed

lemma parseString_gt: "parseString input pos = Inr (v, pos') \<Longrightarrow> pos < pos'"
  by (auto simp: parseString_def split: if_splits sum.splits dest!: parseString_loop_ge)

lemma parseToken_loop_ge: "pos \<le> snd (parseToken_loop input pos sb)"
proof (induction input pos sb rule: parseToken_loop.induct)
  case (1 input pos sb)
  then show ?case
    by (subst parseToken_loop.simps) auto
qed

lemma parseToken_gt:
  assumes "parseToken input pos = Inr (v, pos')" and "pos < length input"
  shows "pos < pos'"
proof -
  from assms have "isTokenChar (input ! pos)"
    by (auto simp: parseToken_def isTokenChar_def split: if_splits)
  with assms(2) have "parseToken_loop input pos [] = parseToken_loop input (pos + 1) [input ! pos]"
    by (subst parseToken_loop.simps) simp
  moreover have "pos + 1 \<le> snd (parseToken_loop input (pos + 1) [input ! pos])"
    by (rule parseToken_loop_ge)
  ultimately show ?thesis
    using assms(1) by (auto simp: parseToken_def split: if_splits prod.splits)
qed

lemma parseByteSeq_loop_ge:
  "parseByteSeq_loop input pos sb = Inr (sb', pos') \<Longrightarrow> pos \<le> pos'"
proof (induction input pos sb rule: parseByteSeq_loop.induct)
  case (1 input pos sb)
  from "1.prems" have "parseByteSeq_loop input pos sb = Inr (sb', pos')" .
  then show ?case
    using "1.IH" by (subst (asm) parseByteSeq_loop.simps) (auto split: if_splits)
qed

lemma parseByteSeq_gt: "parseByteSeq input pos = Inr (v, pos') \<Longrightarrow> pos < pos'"
  by (auto simp: parseByteSeq_def split: if_splits sum.splits dest!: parseByteSeq_loop_ge)

lemma parseBool_gt: "parseBool input pos = Inr (v, pos') \<Longrightarrow> pos < pos'"
  by (auto simp: parseBool_def Let_def split: if_splits)

lemma parseBareItem_gt:
  assumes "parseBareItem input pos = Inr (v, pos')"
  shows "pos < pos'"
proof -
  define p where "p = skipSpaces input pos"
  have "pos \<le> p"
    unfolding p_def by (rule skipSpaces_ge)
  moreover from assms have "p < length input"
    by (auto simp: parseBareItem_def Let_def p_def split: if_splits)
  moreover from assms have
    "parseNumber input p = Inr (v, pos') \<or> parseString input p = Inr (v, pos')
     \<or> parseToken input p = Inr (v, pos') \<or> parseByteSeq input p = Inr (v, pos')
     \<or> parseBool input p = Inr (v, pos')"
    by (auto simp: parseBareItem_def Let_def p_def split: if_splits)
  ultimately show ?thesis
    using parseNumber_gt parseString_gt parseToken_gt parseByteSeq_gt parseBool_gt
    by (meson le_less_trans)
qed

subsection \<open>The parser: parameters, items, inner lists, members, pairs\<close>

function parseParams_loop :: "byte list \<Rightarrow> nat \<Rightarrow> ParamList \<Rightarrow> error + (ParamList \<times> nat)" where
  "parseParams_loop input pos0 params =
     (let pos = skipSpaces input pos0 in
      if pos \<ge> length input \<or> input ! pos \<noteq> CHR '';'' then Inr (params, pos)
      else case parseKey input (pos + 1) of
             Inl err \<Rightarrow> Inl err
           | Inr (key, pos1) \<Rightarrow>
               if pos1 < length input \<and> input ! pos1 = CHR ''='' then
                 (case parseBareItem input (pos1 + 1) of
                    Inl err \<Rightarrow> Inl err
                  | Inr (val, pos2) \<Rightarrow> parseParams_loop input pos2 (ParamList_Add params key val))
               else parseParams_loop input pos1 (ParamList_Add params key (Bool True)))"
  by pat_completeness auto
termination
  apply (relation "measure (\<lambda>(input, pos, params). length input - pos)")
    apply simp
  subgoal for input pos0 params pos r key pos1 r' val pos2
    using skipSpaces_ge [of pos0 input] parseKey_ge [of input "pos + 1" key pos1]
      parseBareItem_gt [of input "pos1 + 1" val pos2]
    by auto
  subgoal for input pos0 params pos r key pos1
    using skipSpaces_ge [of pos0 input] parseKey_ge [of input "pos + 1" key pos1]
    by auto
  done

declare parseParams_loop.simps [simp del]

definition parseParams :: "byte list \<Rightarrow> nat \<Rightarrow> error + (ParamList \<times> nat)" where
  "parseParams input pos = parseParams_loop input pos []"

definition parseItem :: "byte list \<Rightarrow> nat \<Rightarrow> error + (Item \<times> nat)" where
  "parseItem input pos =
     (case parseBareItem input pos of
        Inl err \<Rightarrow> Inl err
      | Inr (b, pos1) \<Rightarrow>
          (case parseParams input pos1 of
             Inl err \<Rightarrow> Inl err
           | Inr (p, pos2) \<Rightarrow> Inr (\<lparr>Bare = b, Params = p\<rparr>, pos2)))"

lemma parseParams_loop_ge:
  "parseParams_loop input pos params = Inr (ps, pos') \<Longrightarrow> pos \<le> pos'"
proof (induction input pos params rule: parseParams_loop.induct)
  case (1 input pos0 params)
  define pos where "pos = skipSpaces input pos0"
  have ge: "pos0 \<le> pos"
    unfolding pos_def by (rule skipSpaces_ge)
  show ?case
  proof (cases "pos \<ge> length input \<or> input ! pos \<noteq> CHR '';''")
    case True
    with "1.prems" ge show ?thesis
      by (subst (asm) parseParams_loop.simps) (simp add: pos_def [symmetric] Let_def)
  next
    case False
    with "1.prems" obtain key pos1 where k: "parseKey input (pos + 1) = Inr (key, pos1)"
      by (subst (asm) parseParams_loop.simps)
        (auto simp: pos_def [symmetric] Let_def split: sum.splits)
    from parseKey_ge [OF k] have ge1: "pos + 1 \<le> pos1" .
    show ?thesis
    proof (cases "pos1 < length input \<and> input ! pos1 = CHR ''=''")
      case True
      with "1.prems" False k obtain val pos2
        where b: "parseBareItem input (pos1 + 1) = Inr (val, pos2)"
          and l: "parseParams_loop input pos2 (ParamList_Add params key val) = Inr (ps, pos')"
        by (subst (asm) parseParams_loop.simps)
          (auto simp: pos_def [symmetric] Let_def split: sum.splits)
      from l have "pos2 \<le> pos'"
        by (rule "1.IH" (1) [OF pos_def False k refl True b refl])
      with parseBareItem_gt [OF b] ge ge1 show ?thesis
        by simp
    next
      case nt: False
      with "1.prems" False k
      have l: "parseParams_loop input pos1 (ParamList_Add params key (Bool True)) = Inr (ps, pos')"
        by (subst (asm) parseParams_loop.simps)
          (auto simp: pos_def [symmetric] Let_def split: sum.splits)
      from l have "pos1 \<le> pos'"
        by (rule "1.IH" (2) [OF pos_def False k refl nt])
      with ge ge1 show ?thesis
        by simp
    qed
  qed
qed

lemma parseItem_gt: "parseItem input pos = Inr (it, pos') \<Longrightarrow> pos < pos'"
  by (auto simp: parseItem_def parseParams_def split: sum.splits
      dest!: parseBareItem_gt parseParams_loop_ge)

function parseInnerList_loop :: "byte list \<Rightarrow> nat \<Rightarrow> Item list \<Rightarrow> error + (Item list \<times> nat)" where
  "parseInnerList_loop input pos0 items =
     (let pos = skipSpaces input pos0 in
      if pos \<ge> length input then Inl ErrUnexpectedEOL
      else if input ! pos = CHR '')'' then Inr (items, pos + 1)
      else case parseItem input pos of
             Inl err \<Rightarrow> Inl err
           | Inr (it, pos1) \<Rightarrow> parseInnerList_loop input pos1 (items @ [it]))"
  by pat_completeness auto
termination
  apply (relation "measure (\<lambda>(input, pos, items). length input - pos)")
   apply simp
  subgoal for input pos0 items pos r it pos1
    using skipSpaces_ge [of pos0 input] parseItem_gt [of input pos it pos1]
    by auto
  done

declare parseInnerList_loop.simps [simp del]

definition parseInnerList :: "byte list \<Rightarrow> nat \<Rightarrow> error + (InnerList \<times> nat)" where
  "parseInnerList input pos =
     (if pos \<ge> length input then Inl ErrUnexpectedEOL
      else if input ! pos \<noteq> CHR ''('' then Inl ErrUnrecognized
      else case parseInnerList_loop input (pos + 1) [] of
             Inl err \<Rightarrow> Inl err
           | Inr (items, pos1) \<Rightarrow>
               (case parseParams input pos1 of
                  Inl err \<Rightarrow> Inl err
                | Inr (p, pos2) \<Rightarrow> Inr (\<lparr>Items = items, Params = p\<rparr>, pos2)))"

definition parseMember :: "byte list \<Rightarrow> nat \<Rightarrow> error + (Member \<times> nat)" where
  "parseMember input pos0 =
     (let pos = skipSpaces input pos0 in
      if pos \<ge> length input then Inl ErrUnexpectedEOL
      else if input ! pos = CHR ''('' then
        (case parseInnerList input pos of
           Inl err \<Rightarrow> Inl err
         | Inr (il, pos1) \<Rightarrow> Inr (MInnerList il, pos1))
      else
        (case parseItem input pos of
           Inl err \<Rightarrow> Inl err
         | Inr (it, pos1) \<Rightarrow> Inr (MItem it, pos1)))"

definition parsePair :: "byte list \<Rightarrow> nat \<Rightarrow> error + (Pair \<times> nat)" where
  "parsePair input pos0 =
     (case parseKey input pos0 of
        Inl err \<Rightarrow> Inl err
      | Inr (key, pos) \<Rightarrow>
          if pos < length input \<and> input ! pos = CHR ''='' then
            (case parseMember input (pos + 1) of
               Inl err \<Rightarrow> Inl err
             | Inr (val, pos1) \<Rightarrow> Inr (\<lparr>Pair.Key = key, Value = val\<rparr>, pos1))
          else
            (case parseParams input pos of
               Inl err \<Rightarrow> Inl err
             | Inr (p, pos1) \<Rightarrow>
                 Inr (\<lparr>Pair.Key = key, Value = MItem \<lparr>Bare = Bool True, Params = p\<rparr>\<rparr>, pos1)))"

lemma parseInnerList_loop_ge:
  "parseInnerList_loop input pos items = Inr (its, pos') \<Longrightarrow> pos \<le> pos'"
proof (induction input pos items rule: parseInnerList_loop.induct)
  case (1 input pos0 items)
  define pos where "pos = skipSpaces input pos0"
  have ge: "pos0 \<le> pos"
    unfolding pos_def by (rule skipSpaces_ge)
  from "1.prems" have lt: "\<not> pos \<ge> length input"
    by (subst (asm) parseInnerList_loop.simps) (auto simp: pos_def [symmetric] Let_def)
  show ?case
  proof (cases "input ! pos = CHR '')''")
    case True
    with "1.prems" lt ge show ?thesis
      by (subst (asm) parseInnerList_loop.simps) (auto simp: pos_def [symmetric] Let_def)
  next
    case False
    with "1.prems" lt obtain it pos1
      where i: "parseItem input pos = Inr (it, pos1)"
        and l: "parseInnerList_loop input pos1 (items @ [it]) = Inr (its, pos')"
      by (subst (asm) parseInnerList_loop.simps)
        (auto simp: pos_def [symmetric] Let_def split: sum.splits)
    from l have "pos1 \<le> pos'"
      by (rule "1.IH" [OF pos_def lt False i refl])
    with parseItem_gt [OF i] ge show ?thesis
      by simp
  qed
qed

lemma parseMember_ge: "parseMember input pos = Inr (m, pos') \<Longrightarrow> pos \<le> pos'"
  using skipSpaces_ge [of pos input]
  by (auto simp: parseMember_def parseInnerList_def parseParams_def Let_def
      split: if_splits sum.splits
      dest!: parseItem_gt parseInnerList_loop_ge parseParams_loop_ge)

lemma parsePair_ge: "parsePair input pos = Inr (p, pos') \<Longrightarrow> pos \<le> pos'"
  by (auto simp: parsePair_def parseParams_def split: if_splits sum.splits
      dest!: parseKey_ge parseMember_ge parseParams_loop_ge)

subsection \<open>The parser: the entry points\<close>

function ParseDictLine_loop :: "byte list \<Rightarrow> nat \<Rightarrow> Dict \<Rightarrow> error + (Dict \<times> nat)" where
  "ParseDictLine_loop input pos0 dict =
     (case parsePair input pos0 of
        Inl err \<Rightarrow> Inl err
      | Inr (pair, pos1) \<Rightarrow>
          let dict' = Dict_Add dict (Pair.Key pair) (Pair.Value pair);
              pos = skipSpaces input pos1
          in if pos \<ge> length input \<or> input ! pos \<noteq> CHR '','' then Inr (dict', pos)
             else ParseDictLine_loop input (pos + 1) dict')"
  by pat_completeness auto
termination
  apply (relation "measure (\<lambda>(input, pos, dict). length input - pos)")
   apply simp
  subgoal for input pos0 dict r pair pos1 dict' pos
    using skipSpaces_ge [of pos1 input] parsePair_ge [of input pos0 pair pos1]
    by auto
  done

declare ParseDictLine_loop.simps [simp del]

definition ParseDictLine :: "string \<Rightarrow> error + Dict" where
  "ParseDictLine header =
     (let input = header;
          pos = skipSpaces input 0
      in if pos \<ge> length input then Inr []
         else case ParseDictLine_loop input pos [] of
                Inl err \<Rightarrow> Inl err
              | Inr (dict, pos') \<Rightarrow> Inr dict)"

function ParseListLine_loop :: "byte list \<Rightarrow> nat \<Rightarrow> List \<Rightarrow> error + (List \<times> nat)" where
  "ParseListLine_loop input pos0 list =
     (case parseMember input pos0 of
        Inl err \<Rightarrow> Inl err
      | Inr (member, pos1) \<Rightarrow>
          let list' = list @ [member];
              pos = skipSpaces input pos1
          in if pos \<ge> length input \<or> input ! pos \<noteq> CHR '','' then Inr (list', pos)
             else ParseListLine_loop input (pos + 1) list')"
  by pat_completeness auto
termination
  apply (relation "measure (\<lambda>(input, pos, list). length input - pos)")
   apply simp
  subgoal for input pos0 list r member pos1 list' pos
    using skipSpaces_ge [of pos1 input] parseMember_ge [of input pos0 member pos1]
    by auto
  done

declare ParseListLine_loop.simps [simp del]

definition ParseListLine :: "string \<Rightarrow> error + List" where
  "ParseListLine header =
     (let input = header;
          pos = skipSpaces input 0
      in if pos \<ge> length input then Inr []
         else case ParseListLine_loop input pos [] of
                Inl err \<Rightarrow> Inl err
              | Inr (list, pos') \<Rightarrow> Inr list)"

definition ParseItemLine :: "string \<Rightarrow> error + Item" where
  "ParseItemLine header =
     (let input = header in
      case parseItem input 0 of
        Inl err \<Rightarrow> Inl err
      | Inr (it, pos0) \<Rightarrow>
          let pos = skipSpaces input pos0
          in if pos < length input then Inl ErrUnrecognized else Inr it)"

section \<open>Properties\<close>

subsection \<open>Spaces and the end of the input\<close>

lemma skipSpaces_stop:
  "pos \<ge> length input \<or> input ! pos \<noteq> CHR '' '' \<Longrightarrow> skipSpaces input pos = pos"
  by (subst skipSpaces.simps) auto

lemma skipSpaces_spaces:
  "rest = [] \<or> hd rest \<noteq> CHR '' '' \<Longrightarrow>
   skipSpaces (pre @ replicate n (CHR '' '') @ rest) (length pre) = length pre + n"
proof (induction n arbitrary: pre)
  case 0
  then show ?case
    by (cases rest) (auto simp: skipSpaces_stop nth_append)
next
  case (Suc n)
  have "skipSpaces ((pre @ [CHR '' '']) @ replicate n (CHR '' '') @ rest) (length (pre @ [CHR '' '']))
        = length (pre @ [CHR '' '']) + n"
    using Suc.prems by (rule Suc.IH)
  then show ?case
    by (subst skipSpaces.simps) (simp add: nth_append)
qed

lemma skipSpaces_le_nonspace:
  "pos \<le> i \<Longrightarrow> i < length input \<Longrightarrow> input ! i \<noteq> CHR '' '' \<Longrightarrow> skipSpaces input pos \<le> i"
proof (induction input pos rule: skipSpaces.induct)
  case (1 input pos)
  show ?case
  proof (cases "pos < length input \<and> input ! pos = CHR '' ''")
    case True
    with "1.prems" have "pos + 1 \<le> i"
      by (cases "pos = i") auto
    with True "1.prems" have "skipSpaces input (pos + 1) \<le> i"
      by (intro "1.IH") auto
    with True show ?thesis
      by (subst skipSpaces.simps) simp
  next
    case False
    with "1.prems" show ?thesis
      by (subst skipSpaces.simps) auto
  qed
qed

subsection \<open>Upsert\<close>

lemma Dict_Add_range_Some: "Dict_Add_range d ps k v = Some d' \<Longrightarrow> d' = d"
  by (induction ps) (auto simp: Let_def split: if_splits)

lemma Dict_Add_range_None: "Dict_Add_range d ps k v = None \<longleftrightarrow> k \<notin> Pair.Key ` set ps"
  by (induction ps) (auto simp: Let_def)

lemma Dict_Add_new: "k \<notin> Pair.Key ` set d \<Longrightarrow> Dict_Add d k v = d @ [\<lparr>Pair.Key = k, Value = v\<rparr>]"
  by (simp add: Dict_Add_def Dict_Add_range_None [THEN iffD2])

lemma Dict_Add_old: "k \<in> Pair.Key ` set d \<Longrightarrow> Dict_Add d k v = d"
  using Dict_Add_range_None [of d d k v] Dict_Add_range_Some [of d d k v]
  by (auto simp: Dict_Add_def split: option.splits)

lemma ParamList_Add_range_Some: "ParamList_Add_range l ps k v = Some l' \<Longrightarrow> l' = l"
  by (induction ps) (auto simp: Let_def split: if_splits)

lemma ParamList_Add_range_None: "ParamList_Add_range l ps k v = None \<longleftrightarrow> k \<notin> Param.Key ` set ps"
  by (induction ps) (auto simp: Let_def)

lemma ParamList_Add_new:
  "k \<notin> Param.Key ` set l \<Longrightarrow> ParamList_Add l k v = l @ [\<lparr>Param.Key = k, Value = v\<rparr>]"
  by (simp add: ParamList_Add_def ParamList_Add_range_None [THEN iffD2])

lemma ParamList_Add_old: "k \<in> Param.Key ` set l \<Longrightarrow> ParamList_Add l k v = l"
  using ParamList_Add_range_None [of l l k v] ParamList_Add_range_Some [of l l k v]
  by (auto simp: ParamList_Add_def split: option.splits)

text \<open>
  C1. The claim: for a \<^verbatim>\<open>Dict\<close> (and a \<^verbatim>\<open>ParamList\<close>) that contains the key,
  \<^verbatim>\<open>Add(k, v)\<close> replaces the value at \<open>k\<close> in place, so that \<open>a=1, b=2\<close> becomes
  \<open>a=3, b=2\<close> after \<^verbatim>\<open>Add("a", 3)\<close>. The code assigns to the copy that \<^verbatim>\<open>range\<close>
  makes of the element and returns the slice as it was: the dictionary and the
  parameter list are still \<open>a=1, b=2\<close>.
\<close>

theorem Add_existing_key_keeps_old_value:
  "Dict_Add [\<lparr>Pair.Key = ''a'', Value = MItem \<lparr>Bare = Integer 1, Params = []\<rparr>\<rparr>,
             \<lparr>Pair.Key = ''b'', Value = MItem \<lparr>Bare = Integer 2, Params = []\<rparr>\<rparr>]
     ''a'' (MItem \<lparr>Bare = Integer 3, Params = []\<rparr>)
   = [\<lparr>Pair.Key = ''a'', Value = MItem \<lparr>Bare = Integer 1, Params = []\<rparr>\<rparr>,
      \<lparr>Pair.Key = ''b'', Value = MItem \<lparr>Bare = Integer 2, Params = []\<rparr>\<rparr>]
   \<and> ParamList_Add [\<lparr>Param.Key = ''a'', Value = Integer 1\<rparr>, \<lparr>Param.Key = ''b'', Value = Integer 2\<rparr>]
       ''a'' (Integer 3)
     = [\<lparr>Param.Key = ''a'', Value = Integer 1\<rparr>, \<lparr>Param.Key = ''b'', Value = Integer 2\<rparr>]"
  by (simp add: Dict_Add_def ParamList_Add_def)

text \<open>
  C3. \<^verbatim>\<open>ParseDictLine\<close> and \<^verbatim>\<open>ParseListLine\<close> on the empty string, and on a string
  of \<open>n\<close> spaces for any \<open>n\<close>, return the empty dictionary and the empty list
  with no error.
\<close>

theorem ParseLine_empty_input:
  "ParseDictLine (replicate n (CHR '' '')) = Inr []
   \<and> ParseListLine (replicate n (CHR '' '')) = Inr []
   \<and> ParseDictLine [] = Inr [] \<and> ParseListLine [] = Inr []"
proof -
  have "skipSpaces ([] @ replicate n (CHR '' '') @ []) (length ([] :: string)) = length ([] :: string) + n"
    by (rule skipSpaces_spaces) simp
  then have n: "skipSpaces (replicate n (CHR '' '')) 0 = n"
    by simp
  have e: "skipSpaces [] 0 = 0"
    by (simp add: skipSpaces_stop)
  from n e show ?thesis
    by (simp add: ParseDictLine_def ParseListLine_def Let_def)
qed

lemmas parser_eval =
  ParseDictLine_def ParseListLine_def ParseItemLine_def ParseDictLine_loop.simps
  ParseListLine_loop.simps parsePair_def parseMember_def parseInnerList_def
  parseInnerList_loop.simps parseItem_def parseParams_def parseParams_loop.simps
  parseKey_def parseKey_loop.simps parseBareItem_def parseNumber_def parseNumber_loop.simps
  parseString_def parseString_loop.simps parseString_escape_def parseToken_def
  parseToken_loop.simps parseByteSeq_def parseByteSeq_loop.simps parseBool_def
  skipSpaces.simps isDigit_def isLower_def isUpper_def isAlpha_def isKeyChar_def
  isTokenChar_def isBase64Char_def isPrint_def Let_def Dict_Add_def ParamList_Add_def

text \<open>
  C6. When \<^verbatim>\<open>parseItem\<close> has parsed an item of the line and stopped at \<open>pos\<close>, and
  some byte at or after \<open>pos\<close> is not a space, \<^verbatim>\<open>ParseItemLine\<close> returns
  \<^verbatim>\<open>ErrUnrecognized\<close>; so it returns an item only when nothing but spaces follows
  the item. On \<^verbatim>\<open>"5 garbage"\<close> it returns \<^verbatim>\<open>ErrUnrecognized\<close>.
\<close>

theorem ParseItemLine_rejects_trailing:
  "(parseItem input 0 = Inr (it, pos) \<and> pos \<le> i \<and> i < length input \<and> input ! i \<noteq> CHR '' ''
      \<longrightarrow> ParseItemLine input = Inl ErrUnrecognized)
   \<and> (ParseItemLine input = Inr it' \<longrightarrow>
        (\<exists>pos'. parseItem input 0 = Inr (it', pos')
           \<and> (\<forall>j. pos' \<le> j \<and> j < length input \<longrightarrow> input ! j = CHR '' '')))
   \<and> ParseItemLine ''5 garbage'' = Inl ErrUnrecognized"
proof (intro conjI impI)
  assume a: "parseItem input 0 = Inr (it, pos) \<and> pos \<le> i \<and> i < length input \<and> input ! i \<noteq> CHR '' ''"
  then have "skipSpaces input pos \<le> i"
    by (intro skipSpaces_le_nonspace) auto
  with a show "ParseItemLine input = Inl ErrUnrecognized"
    by (simp add: ParseItemLine_def Let_def)
next
  assume r: "ParseItemLine input = Inr it'"
  then obtain pos' where p: "parseItem input 0 = Inr (it', pos')"
    and s: "\<not> skipSpaces input pos' < length input"
    by (auto simp: ParseItemLine_def Let_def split: sum.splits if_splits)
  have "input ! j = CHR '' ''" if "pos' \<le> j \<and> j < length input" for j
  proof (rule ccontr)
    assume "input ! j \<noteq> CHR '' ''"
    with that have "skipSpaces input pos' \<le> j"
      by (intro skipSpaces_le_nonspace) auto
    with that s show False
      by simp
  qed
  with p show "\<exists>pos'. parseItem input 0 = Inr (it', pos')
      \<and> (\<forall>j. pos' \<le> j \<and> j < length input \<longrightarrow> input ! j = CHR '' '')"
    by blast
next
  show "ParseItemLine ''5 garbage'' = Inl ErrUnrecognized"
    by (simp add: parser_eval ParseInt_def ParseUint_def)
qed

theorem ParseItemLine_rejects_trailing_witness:
  "parseItem ''5 garbage'' 0 = Inr (\<lparr>Bare = Integer 5, Params = []\<rparr>, 2)
   \<and> (2::nat) \<le> 2 \<and> 2 < length ''5 garbage'' \<and> ''5 garbage'' ! 2 \<noteq> CHR '' ''
   \<and> ParseItemLine ''5 garbage'' = Inl ErrUnrecognized
   \<and> ParseItemLine ''5  '' = Inr \<lparr>Bare = Integer 5, Params = []\<rparr>
   \<and> parseItem ''5  '' 0 = Inr (\<lparr>Bare = Integer 5, Params = []\<rparr>, 3)"
proof -
  have p: "parseItem ''5 garbage'' 0 = Inr (\<lparr>Bare = Integer 5, Params = []\<rparr>, 2)"
    by (simp add: parser_eval ParseInt_def ParseUint_def)
  have q: "ParseItemLine ''5  '' = Inr \<lparr>Bare = Integer 5, Params = []\<rparr>"
    by (simp add: parser_eval ParseInt_def ParseUint_def)
  have r: "parseItem ''5  '' 0 = Inr (\<lparr>Bare = Integer 5, Params = []\<rparr>, 3)"
    by (simp add: parser_eval ParseInt_def ParseUint_def)
  from p q r
    ParseItemLine_rejects_trailing [of "''5 garbage''" "\<lparr>Bare = Integer 5, Params = []\<rparr>" 2 2]
    ParseItemLine_rejects_trailing [of "''5  ''" _ _ _ "\<lparr>Bare = Integer 5, Params = []\<rparr>"]
  show ?thesis
    by simp
qed

text \<open>
  C8. \<^verbatim>\<open>Param.Encode\<close> writes the key alone exactly when the value is
  \<^verbatim>\<open>Bool(true)\<close>, and \<^verbatim>\<open>Pair.Encode\<close> writes the key and the item's parameters,
  without \<^verbatim>\<open>=?1\<close>, exactly when the value is an item whose bare value is
  \<^verbatim>\<open>Bool(true)\<close>; every other value is written after \<^verbatim>\<open>=\<close>. The line
  \<^verbatim>\<open>a=?0, b, c; foo=bar\<close> parses to a dictionary that encodes to
  \<^verbatim>\<open>a=?0, b, c;foo=bar\<close>.
\<close>

theorem Encode_omits_true_value:
  "Param_Encode \<lparr>Param.Key = k, Value = Bool True\<rparr> = k
   \<and> (v \<noteq> Bool True \<longrightarrow>
        Param_Encode \<lparr>Param.Key = k, Value = v\<rparr> = k @ ''='' @ BareItem_Encode v)
   \<and> Pair_Encode \<lparr>Pair.Key = k, Value = MItem \<lparr>Bare = Bool True, Params = ps\<rparr>\<rparr>
       = k @ ParamList_Encode ps
   \<and> ((\<forall>it. m = MItem it \<longrightarrow> Bare it \<noteq> Bool True) \<longrightarrow>
        Pair_Encode \<lparr>Pair.Key = k, Value = m\<rparr> = k @ ''='' @ Member_Encode m)
   \<and> ParseDictLine ''a=?0, b, c; foo=bar'' =
       Inr [\<lparr>Pair.Key = ''a'', Value = MItem \<lparr>Bare = Bool False, Params = []\<rparr>\<rparr>,
            \<lparr>Pair.Key = ''b'', Value = MItem \<lparr>Bare = Bool True, Params = []\<rparr>\<rparr>,
            \<lparr>Pair.Key = ''c'', Value = MItem \<lparr>Bare = Bool True,
               Params = [\<lparr>Param.Key = ''foo'', Value = Token ''bar''\<rparr>]\<rparr>\<rparr>]
   \<and> Dict_Encode
         [\<lparr>Pair.Key = ''a'', Value = MItem \<lparr>Bare = Bool False, Params = []\<rparr>\<rparr>,
          \<lparr>Pair.Key = ''b'', Value = MItem \<lparr>Bare = Bool True, Params = []\<rparr>\<rparr>,
          \<lparr>Pair.Key = ''c'', Value = MItem \<lparr>Bare = Bool True,
             Params = [\<lparr>Param.Key = ''foo'', Value = Token ''bar''\<rparr>]\<rparr>\<rparr>]
       = ''a=?0, b, c;foo=bar''"
proof (intro conjI impI)
  show "Param_Encode \<lparr>Param.Key = k, Value = Bool True\<rparr> = k"
    by (simp add: Param_Encode_def)
  show "Param_Encode \<lparr>Param.Key = k, Value = v\<rparr> = k @ ''='' @ BareItem_Encode v"
    if "v \<noteq> Bool True"
    using that by (cases v) (auto simp: Param_Encode_def split: bool.splits)
  show "Pair_Encode \<lparr>Pair.Key = k, Value = MItem \<lparr>Bare = Bool True, Params = ps\<rparr>\<rparr>
       = k @ ParamList_Encode ps"
    by (simp add: Pair_Encode_def)
  show "Pair_Encode \<lparr>Pair.Key = k, Value = m\<rparr> = k @ ''='' @ Member_Encode m"
    if "\<forall>it. m = MItem it \<longrightarrow> Bare it \<noteq> Bool True"
    using that
    by (cases m) (auto simp: Pair_Encode_def split: BareItem.splits bool.splits)
  show "ParseDictLine ''a=?0, b, c; foo=bar'' =
       Inr [\<lparr>Pair.Key = ''a'', Value = MItem \<lparr>Bare = Bool False, Params = []\<rparr>\<rparr>,
            \<lparr>Pair.Key = ''b'', Value = MItem \<lparr>Bare = Bool True, Params = []\<rparr>\<rparr>,
            \<lparr>Pair.Key = ''c'', Value = MItem \<lparr>Bare = Bool True,
               Params = [\<lparr>Param.Key = ''foo'', Value = Token ''bar''\<rparr>]\<rparr>\<rparr>]"
    by code_simp
  show "Dict_Encode
         [\<lparr>Pair.Key = ''a'', Value = MItem \<lparr>Bare = Bool False, Params = []\<rparr>\<rparr>,
          \<lparr>Pair.Key = ''b'', Value = MItem \<lparr>Bare = Bool True, Params = []\<rparr>\<rparr>,
          \<lparr>Pair.Key = ''c'', Value = MItem \<lparr>Bare = Bool True,
             Params = [\<lparr>Param.Key = ''foo'', Value = Token ''bar''\<rparr>]\<rparr>\<rparr>]
       = ''a=?0, b, c;foo=bar''"
    by (simp add: Dict_Encode_def Pair_Encode_def Item_Encode_def ParamList_Encode_def
        Param_Encode_def Bool_Encode_def Token_Encode_def)
qed

theorem Encode_omits_true_value_witness:
  "Bool False \<noteq> Bool True
   \<and> Param_Encode \<lparr>Param.Key = ''k'', Value = Bool False\<rparr> = ''k=?0''
   \<and> (\<forall>it. MItem \<lparr>Bare = Bool False, Params = []\<rparr> = MItem it \<longrightarrow> Bare it \<noteq> Bool True)
   \<and> Pair_Encode \<lparr>Pair.Key = ''k'', Value = MItem \<lparr>Bare = Bool False, Params = []\<rparr>\<rparr> = ''k=?0''"
  using Encode_omits_true_value
    [of "''k''" "Bool False" _ "MItem \<lparr>Bare = Bool False, Params = []\<rparr>"]
  by (simp add: Bool_Encode_def Item_Encode_def ParamList_Encode_def)

subsection \<open>Byte sequences\<close>

lemma isBase64Char_not_colon: "isBase64Char c \<Longrightarrow> c \<noteq> CHR '':''"
  by (auto simp: isBase64Char_def isAlpha_def isLower_def isUpper_def isDigit_def)

lemma parseByteSeq_loop_payload:
  "list_all isBase64Char payload \<Longrightarrow>
   parseByteSeq_loop (pre @ payload @ CHR '':'' # rest) (length pre) sb
   = Inr (sb @ payload, length pre + length payload)"
proof (induction payload arbitrary: pre sb)
  case Nil
  then show ?case
    by (subst parseByteSeq_loop.simps) (simp add: nth_append)
next
  case (Cons c payload)
  have "parseByteSeq_loop ((pre @ [c]) @ payload @ CHR '':'' # rest) (length (pre @ [c])) (sb @ [c])
        = Inr ((sb @ [c]) @ payload, length (pre @ [c]) + length payload)"
    using Cons.prems by (intro Cons.IH) simp
  with Cons.prems show ?case
    by (subst parseByteSeq_loop.simps) (simp add: nth_append isBase64Char_not_colon)
qed

lemma parseByteSeq_payload:
  "list_all isBase64Char payload \<Longrightarrow>
   parseByteSeq (pre @ CHR '':'' # payload @ CHR '':'' # rest) (length pre)
   = Inr (ByteSeq (fst (DecodeString payload)), length pre + length payload + 2)"
  using parseByteSeq_loop_payload [of payload "pre @ '':''" rest "[]"]
  by (simp add: parseByteSeq_def nth_append)

lemma parseByteSeq_loop_Inr:
  "parseByteSeq_loop input pos sb = Inr (sb', p) \<Longrightarrow>
   pos \<le> p \<and> (p < length input \<longrightarrow> input ! p = CHR '':'')
   \<and> (\<forall>j. pos \<le> j \<and> j < p \<longrightarrow> input ! j \<noteq> CHR '':'' \<and> isBase64Char (input ! j))"
proof (induction input pos sb rule: parseByteSeq_loop.induct)
  case (1 input pos sb)
  show ?case
  proof (cases "pos < length input \<and> input ! pos \<noteq> CHR '':''")
    case False
    with "1.prems" show ?thesis
      by (subst (asm) parseByteSeq_loop.simps) auto
  next
    case True
    with "1.prems" have b: "isBase64Char (input ! pos)"
      and l: "parseByteSeq_loop input (pos + 1) (sb @ [input ! pos]) = Inr (sb', p)"
      by (subst (asm) parseByteSeq_loop.simps, simp split: if_splits)+
    from b have nb: "\<not> \<not> isBase64Char (input ! pos)"
      by simp
    have ih: "pos + 1 \<le> p \<and> (p < length input \<longrightarrow> input ! p = CHR '':'')
      \<and> (\<forall>j. pos + 1 \<le> j \<and> j < p \<longrightarrow> input ! j \<noteq> CHR '':'' \<and> isBase64Char (input ! j))"
      by (rule "1.IH" [OF True nb l])
    have "input ! j \<noteq> CHR '':'' \<and> isBase64Char (input ! j)" if "pos \<le> j \<and> j < p" for j
    proof (cases "j = pos")
      case True
      with b \<open>pos < length input \<and> input ! pos \<noteq> CHR '':''\<close> show ?thesis
        by simp
    next
      case False
      with that ih show ?thesis
        by (simp add: Suc_le_eq)
    qed
    with ih show ?thesis
      by auto
  qed
qed

lemma parseByteSeq_loop_Inl:
  "parseByteSeq_loop input pos sb = Inl e \<Longrightarrow>
   e = ErrUnrecognized
   \<and> (\<exists>i. pos \<le> i \<and> i < length input \<and> \<not> isBase64Char (input ! i)
         \<and> (\<forall>j. pos \<le> j \<and> j \<le> i \<longrightarrow> input ! j \<noteq> CHR '':''))"
proof (induction input pos sb rule: parseByteSeq_loop.induct)
  case (1 input pos sb)
  from "1.prems" have t: "pos < length input \<and> input ! pos \<noteq> CHR '':''"
    by (subst (asm) parseByteSeq_loop.simps) (simp split: if_splits)
  show ?case
  proof (cases "isBase64Char (input ! pos)")
    case False
    with t have "pos \<le> pos \<and> pos < length input \<and> \<not> isBase64Char (input ! pos)
         \<and> (\<forall>j. pos \<le> j \<and> j \<le> pos \<longrightarrow> input ! j \<noteq> CHR '':'')"
      by (auto simp: le_antisym)
    moreover from "1.prems" t False have "e = ErrUnrecognized"
      by (subst (asm) parseByteSeq_loop.simps) simp
    ultimately show ?thesis
      by blast
  next
    case True
    with "1.prems" t have l: "parseByteSeq_loop input (pos + 1) (sb @ [input ! pos]) = Inl e"
      by (subst (asm) parseByteSeq_loop.simps) simp
    from True have nb: "\<not> \<not> isBase64Char (input ! pos)"
      by simp
    from "1.IH" [OF t nb l] obtain i where e: "e = ErrUnrecognized"
      and i: "pos + 1 \<le> i" "i < length input" "\<not> isBase64Char (input ! i)"
        "\<forall>j. pos + 1 \<le> j \<and> j \<le> i \<longrightarrow> input ! j \<noteq> CHR '':''"
      by blast
    have "input ! j \<noteq> CHR '':''" if "pos \<le> j \<and> j \<le> i" for j
      using that t i(4) by (cases "j = pos") (auto simp: Suc_le_eq)
    with e i show ?thesis
      by (intro conjI exI [of _ i]) auto
  qed
qed

end
